theory Spec2Isabelle
  imports Complex_Main
begin

section \<open>Data model of bookstore.py\<close>

text \<open>
  Python objects that are mutated and shared are kept in an explicit store. A
  \<open>Discount\<close> object is named by a reference; the store maps every reference to
  the current fields of the object. The same reference may sit in the lists of several
  customers, and several times in one list, exactly as the same Python object may.
  Python's \<open>None\<close> inside a list of discounts is the value \<open>None\<close> of the option type.

  Prices and discount amounts are Python floats; they are modelled as real numbers, so
  the arithmetic below is exact where the float arithmetic rounds.
  Points in time (\<open>datetime\<close>) are integers on one time axis, and the clock is read
  once per call: the parameter \<open>now\<close>.

  The field \<open>id\<close> of a discount is written \<open>id_no\<close>. The fields of
  \<open>MasterData\<close> carry the prefix \<open>md_\<close>, since \<open>books\<close> and
  \<open>discounts\<close> already name the fields of an order and of a customer.
\<close>

type_synonym ref = nat

datatype error = AttributeError

record discount =
  id_no :: int
  start_valid :: int
  end_valid :: int
  amount :: real
  nb_usage :: int
  coupon_code :: "string option"
  author_specific :: "string option"

record book =
  title :: string
  author :: string
  price :: real

record date =
  year :: int
  month :: int
  day :: int

record order =
  books :: "(book option \<times> int) list"

record customer =
  username :: string
  location :: string
  signup_date :: date
  discounts :: "ref option list"
  order :: "order option"

record master_data =
  md_books :: "book list"
  md_discounts :: "ref list"
  md_customers :: "customer list"

text \<open>The running state of one pricing calculation: the local \<open>total_price\<close>, the
  store of discount objects, and \<open>self.customer.discounts\<close>.\<close>

record pricing =
  total_price :: real
  heap :: "ref \<Rightarrow> discount"
  held :: "ref list"

section \<open>Discount.valid\<close>

definition valid :: "discount \<Rightarrow> int \<Rightarrow> bool" where
  "valid d now = (now \<ge> start_valid d \<and> now \<le> end_valid d)"

text \<open>Python truthiness of the field \<open>author_specific\<close>: \<open>None\<close> and the empty
  string are false.\<close>

definition truthy :: "string option \<Rightarrow> bool" where
  "truthy s = (case s of None \<Rightarrow> False | Some t \<Rightarrow> t \<noteq> [])"

section \<open>Shipping\<close>

text \<open>\<open>Shipping.calculate_distance\<close> asks a geocoding service; it is the parameter
  \<open>calculate_distance\<close>, which answers \<open>None\<close> when a place is not found.\<close>

definition shipping_cost :: "(string \<Rightarrow> string \<Rightarrow> real option) \<Rightarrow> string \<Rightarrow> string \<Rightarrow> real" where
  "shipping_cost calculate_distance store_location customer_location =
     (case calculate_distance store_location customer_location of
        Some distance \<Rightarrow> 0.02 * distance
      | None \<Rightarrow> 0)"

text \<open>\<open>round(x, 2)\<close>: the nearest multiple of one hundredth, a tie going to the even
  neighbour.\<close>

definition round_half_even :: "real \<Rightarrow> int" where
  "round_half_even x =
     (let f = \<lfloor>x\<rfloor>; r = x - of_int f in
      if r < 1 / 2 then f
      else if r > 1 / 2 then f + 1
      else if even f then f else f + 1)"

definition py_round2 :: "real \<Rightarrow> real" where
  "py_round2 x = of_int (round_half_even (x * 100)) / 100"

section \<open>Order.calculate_total_price\<close>

text \<open>Reading an attribute of every element of \<open>self.customer.discounts\<close> (the two
  \<open>filter\<close> calls at the top) raises on a \<open>None\<close> element.\<close>

fun deref :: "ref option list \<Rightarrow> error + ref list" where
  "deref [] = Inr []"
| "deref (None # xs) = Inl AttributeError"
| "deref (Some r # xs) = (case deref xs of Inl e \<Rightarrow> Inl e | Inr rs \<Rightarrow> Inr (r # rs))"

text \<open>The statements \<open>d.nb_usage -= 1; if d.nb_usage == 0: self.customer.discounts =
  list(filter(lambda x: x.id != d.id, self.customer.discounts))\<close>, which both loops
  contain.\<close>

definition consume :: "ref \<Rightarrow> pricing \<Rightarrow> pricing" where
  "consume d st =
     (let h = (heap st)(d := (heap st d)\<lparr>nb_usage := nb_usage (heap st d) - 1\<rparr>) in
      st\<lparr>heap := h,
         held := (if nb_usage (h d) = 0
                  then filter (\<lambda>x. id_no (h x) \<noteq> id_no (h d)) (held st)
                  else held st)\<rparr>)"

text \<open>One turn of the loop over \<open>self.books\<close>. The list \<open>asd\<close> is the local
  \<open>author_specific_discounts\<close>, computed once before the loop.\<close>

definition price_line :: "ref list \<Rightarrow> book \<Rightarrow> int \<Rightarrow> pricing \<Rightarrow> pricing" where
  "price_line asd b quantity st =
     (case List.find (\<lambda>d. author_specific (heap st d) = Some (author b)) asd of
        None \<Rightarrow> st\<lparr>total_price := total_price st + price b * 1 * of_int quantity\<rparr>
      | Some psd \<Rightarrow>
          consume psd
            (st\<lparr>total_price :=
                  total_price st + price b * (1 - amount (heap st psd)) * of_int quantity\<rparr>))"

fun price_lines :: "ref list \<Rightarrow> (book option \<times> int) list \<Rightarrow> pricing \<Rightarrow> error + pricing" where
  "price_lines asd [] st = Inr st"
| "price_lines asd ((None, quantity) # ls) st = Inl AttributeError"
| "price_lines asd ((Some b, quantity) # ls) st = price_lines asd ls (price_line asd b quantity st)"

text \<open>The loop over the local \<open>valid_discounts\<close>.\<close>

definition apply_discount :: "ref \<Rightarrow> pricing \<Rightarrow> pricing" where
  "apply_discount d st =
     consume d (st\<lparr>total_price := total_price st * (1 - amount (heap st d))\<rparr>)"

fun apply_discounts :: "ref list \<Rightarrow> pricing \<Rightarrow> pricing" where
  "apply_discounts [] st = st"
| "apply_discounts (d # ds) st = apply_discounts ds (apply_discount d st)"

text \<open>Everything before the shipping cost: the two snapshots and the two loops.\<close>

definition running_total :: "int \<Rightarrow> (ref \<Rightarrow> discount) \<Rightarrow> customer \<Rightarrow> order \<Rightarrow> error + pricing" where
  "running_total now h c ord =
     (case deref (discounts c) of
        Inl e \<Rightarrow> Inl e
      | Inr ds \<Rightarrow>
          (let author_specific_discounts =
                 filter (\<lambda>d. valid (h d) now \<and> truthy (author_specific (h d))) ds;
               valid_discounts =
                 filter (\<lambda>d. valid (h d) now \<and> \<not> truthy (author_specific (h d))) ds
           in case price_lines author_specific_discounts (books ord)
                     \<lparr>total_price = 0, heap = h, held = ds\<rparr> of
                Inl e \<Rightarrow> Inl e
              | Inr st \<Rightarrow> Inr (apply_discounts valid_discounts st)))"

text \<open>The value of the local \<open>total_price\<close> when the loop over \<open>self.books\<close>
  has ended and the loop over \<open>valid_discounts\<close> has not begun.\<close>

definition lines_total :: "int \<Rightarrow> (ref \<Rightarrow> discount) \<Rightarrow> customer \<Rightarrow> order \<Rightarrow> error + real" where
  "lines_total now h c ord =
     (case deref (discounts c) of
        Inl e \<Rightarrow> Inl e
      | Inr ds \<Rightarrow>
          (let author_specific_discounts =
                 filter (\<lambda>d. valid (h d) now \<and> truthy (author_specific (h d))) ds
           in case price_lines author_specific_discounts (books ord)
                     \<lparr>total_price = 0, heap = h, held = ds\<rparr> of
                Inl e \<Rightarrow> Inl e
              | Inr st \<Rightarrow> Inr (total_price st)))"

text \<open>The result is the returned price, the store afterwards and the customer
  afterwards. A call that raises gives only the error.\<close>

definition calculate_total_price ::
  "(string \<Rightarrow> string \<Rightarrow> real option) \<Rightarrow> int \<Rightarrow> (ref \<Rightarrow> discount) \<Rightarrow> customer \<Rightarrow> order
     \<Rightarrow> error + (real \<times> (ref \<Rightarrow> discount) \<times> customer)" where
  "calculate_total_price calculate_distance now h c ord =
     (case running_total now h c ord of
        Inl e \<Rightarrow> Inl e
      | Inr st \<Rightarrow>
          (let cost = shipping_cost calculate_distance ''paris'' (location c);
               cost = (if total_price st > 50 then 0 else cost)
           in Inr (py_round2 (total_price st + cost), heap st,
                   c\<lparr>discounts := map Some (held st)\<rparr>)))"

section \<open>Customer.place_order\<close>

definition add_book :: "order \<Rightarrow> book option \<Rightarrow> int \<Rightarrow> order" where
  "add_book ord b quantity = ord\<lparr>books := books ord @ [(b, quantity)]\<rparr>"

definition place_order :: "customer \<Rightarrow> (book option \<times> int) list \<Rightarrow> customer" where
  "place_order c books_selected =
     c\<lparr>order := Some (foldl (\<lambda>ord (b, quantity). add_book ord b quantity)
                            \<lparr>books = []\<rparr> books_selected)\<rparr>"

section \<open>Store\<close>

text \<open>A \<open>Customer\<close> object is named by its position in \<open>master_data.customers\<close>.\<close>

fun first_index :: "('a \<Rightarrow> bool) \<Rightarrow> 'a list \<Rightarrow> nat option" where
  "first_index P [] = None"
| "first_index P (x # xs) = (if P x then Some 0 else map_option Suc (first_index P xs))"

definition select_discount :: "(ref \<Rightarrow> discount) \<Rightarrow> master_data \<Rightarrow> int \<Rightarrow> ref option" where
  "select_discount h md k = List.find (\<lambda>d. id_no (h d) = k) (md_discounts md)"

definition select_customer :: "master_data \<Rightarrow> string \<Rightarrow> nat option" where
  "select_customer md name = first_index (\<lambda>c. username c = name) (md_customers md)"

definition select_customers :: "master_data \<Rightarrow> string \<Rightarrow> nat list" where
  "select_customers md loc =
     filter (\<lambda>i. location (md_customers md ! i) = loc) [0..<length (md_customers md)]"

definition select_book :: "master_data \<Rightarrow> string \<Rightarrow> book option" where
  "select_book md t = List.find (\<lambda>b. title b = t) (md_books md)"

text \<open>\<open>for customer in selected_customers: customer.discounts.append(selected_discount)\<close>\<close>

definition append_discount :: "ref option \<Rightarrow> customer \<Rightarrow> customer" where
  "append_discount d c = c\<lparr>discounts := discounts c @ [d]\<rparr>"

fun assign :: "ref option \<Rightarrow> nat list \<Rightarrow> customer list \<Rightarrow> customer list" where
  "assign d [] cs = cs"
| "assign d (i # is) cs = assign d is (cs[i := append_discount d (cs ! i)])"

text \<open>The difference of two \<open>datetime.date\<close> values in days, through the day number
  of the proleptic Gregorian calendar.\<close>

definition is_leap :: "int \<Rightarrow> bool" where
  "is_leap y = (if y mod 4 \<noteq> 0 then False else if y mod 100 \<noteq> 0 then True else y mod 400 = 0)"

definition days_before_year :: "int \<Rightarrow> int" where
  "days_before_year y = (y - 1) * 365 + (y - 1) div 4 - (y - 1) div 100 + (y - 1) div 400"

definition days_before_month :: "int \<Rightarrow> int \<Rightarrow> int" where
  "days_before_month y m =
     (if m = 1 then 0 else if m = 2 then 31 else if m = 3 then 59 else if m = 4 then 90
      else if m = 5 then 120 else if m = 6 then 151 else if m = 7 then 181
      else if m = 8 then 212 else if m = 9 then 243 else if m = 10 then 273
      else if m = 11 then 304 else 334)
     + (if m > 2 \<and> is_leap y then 1 else 0)"

definition toordinal :: "date \<Rightarrow> int" where
  "toordinal d = days_before_year (year d) + days_before_month (year d) (month d) + day d"

definition one_year :: "date \<Rightarrow> customer \<Rightarrow> bool" where
  "one_year today c = (toordinal today - toordinal (signup_date c) \<ge> 365)"

definition discount_one_year_customers ::
  "date \<Rightarrow> (ref \<Rightarrow> discount) \<Rightarrow> master_data \<Rightarrow> int \<Rightarrow> master_data" where
  "discount_one_year_customers today h md discount_id =
     (let selected_discount = select_discount h md discount_id;
          selected_customers =
            filter (\<lambda>i. one_year today (md_customers md ! i)) [0..<length (md_customers md)]
      in md\<lparr>md_customers := assign selected_discount selected_customers (md_customers md)\<rparr>)"

definition discount_black_friday ::
  "date \<Rightarrow> (ref \<Rightarrow> discount) \<Rightarrow> master_data \<Rightarrow> int \<Rightarrow> master_data" where
  "discount_black_friday today h md discount_id =
     (if today = \<lparr>year = year today, month = 11, day = 24\<rparr>
      then md\<lparr>md_customers :=
                assign (select_discount h md discount_id) [0..<length (md_customers md)]
                  (md_customers md)\<rparr>
      else md)"

text \<open>\<open>str.lower\<close> is a function of the Python library, not of this program: the
  location rule takes it as the parameter \<open>lower\<close>, as the pricing takes the
  geocoding service.\<close>

definition discount_location ::
  "(string \<Rightarrow> string) \<Rightarrow> (ref \<Rightarrow> discount) \<Rightarrow> master_data \<Rightarrow> int \<Rightarrow> string
     \<Rightarrow> master_data" where
  "discount_location lower h md discount_id loc =
     (let selected_discount = select_discount h md discount_id;
          selected_customers = select_customers md (lower loc)
      in md\<lparr>md_customers := assign selected_discount selected_customers (md_customers md)\<rparr>)"

text \<open>Assigning to an attribute of \<open>None\<close> raises before any customer is touched.\<close>

definition discount_specific_author ::
  "(ref \<Rightarrow> discount) \<Rightarrow> master_data \<Rightarrow> int \<Rightarrow> string
     \<Rightarrow> error + ((ref \<Rightarrow> discount) \<times> master_data)" where
  "discount_specific_author h md discount_id a =
     (case select_discount h md discount_id of
        None \<Rightarrow> Inl AttributeError
      | Some d \<Rightarrow>
          Inr (h(d := (h d)\<lparr>author_specific := Some a\<rparr>),
               md\<lparr>md_customers :=
                    assign (Some d) [0..<length (md_customers md)] (md_customers md)\<rparr>))"

definition run_all_discount_rules ::
  "date \<Rightarrow> (ref \<Rightarrow> discount) \<Rightarrow> master_data \<Rightarrow> master_data" where
  "run_all_discount_rules today h md =
     discount_one_year_customers today h (discount_black_friday today h md 2) 1"

text \<open>The caller's sequence in \<open>main\<close> and in the tests: look the customer and the
  books up, then place the order. Calling \<open>place_order\<close> on \<open>None\<close> raises.\<close>

definition main_place_order ::
  "master_data \<Rightarrow> string \<Rightarrow> (string \<times> int) list \<Rightarrow> error + master_data" where
  "main_place_order md name books_selected =
     (let joe_doe = select_customer md name;
          bs = map (\<lambda>(t, quantity). (select_book md t, quantity)) books_selected
      in case joe_doe of
           None \<Rightarrow> Inl AttributeError
         | Some i \<Rightarrow>
             Inr (md\<lparr>md_customers :=
                       (md_customers md)[i := place_order (md_customers md ! i) bs]\<rparr>))"

section \<open>Sample data\<close>

text \<open>Three discounts in the store: a general one that is valid from time 0 to time 100,
  a general one that is valid from time 0 to time 10, and one scoped to an author. Every
  other reference stands for a copy of the last.\<close>

definition tenure :: discount where
  "tenure = \<lparr>id_no = 1, start_valid = 0, end_valid = 100, amount = 1 / 10, nb_usage = 1,
              coupon_code = None, author_specific = None\<rparr>"

definition seasonal :: discount where
  "seasonal = \<lparr>id_no = 2, start_valid = 0, end_valid = 10, amount = 2 / 10, nb_usage = 3,
               coupon_code = None, author_specific = None\<rparr>"

definition adams :: discount where
  "adams = \<lparr>id_no = 3, start_valid = 0, end_valid = 100, amount = 4 / 10, nb_usage = 1,
             coupon_code = None, author_specific = Some ''Douglas Adams''\<rparr>"

definition objects :: "ref \<Rightarrow> discount" where
  "objects r = (if r = 0 then tenure else if r = 1 then seasonal else adams)"

definition guide :: book where
  "guide = \<lparr>title = ''Guide'', author = ''Douglas Adams'', price = 10\<rparr>"

definition restaurant :: book where
  "restaurant = \<lparr>title = ''Restaurant'', author = ''Douglas Adams'', price = 20\<rparr>"

definition dune :: book where
  "dune = \<lparr>title = ''Dune'', author = ''Frank Herbert'', price = 50\<rparr>"

definition foundation :: book where
  "foundation = \<lparr>title = ''Foundation'', author = ''Isaac Asimov'', price = 55\<rparr>"

definition john_doe :: customer where
  "john_doe = \<lparr>username = ''john_doe'', location = ''berlin'',
                signup_date = \<lparr>year = 2020, month = 1, day = 15\<rparr>,
                discounts = [], order = None\<rparr>"

definition jane :: customer where
  "jane = \<lparr>username = ''jane'', location = ''PARIS'',
            signup_date = \<lparr>year = 2023, month = 6, day = 1\<rparr>,
            discounts = [], order = None\<rparr>"

definition sample_data :: master_data where
  "sample_data = \<lparr>md_books = [guide, restaurant, dune], md_discounts = [0, 1, 2],
                   md_customers = [john_doe, jane]\<rparr>"

definition black_friday :: date where
  "black_friday = \<lparr>year = 2023, month = 11, day = 24\<rparr>"



text \<open>What \<open>str.lower\<close> does to text of ASCII characters: a letter from A to Z
  becomes the letter from a to z, every other character stays. It stands for
  \<open>str.lower\<close> in the sample calls, whose targets are ASCII text.\<close>

definition ascii_lower_char :: "char \<Rightarrow> char" where
  "ascii_lower_char ch =
     (let n = (of_char ch :: nat) in if 65 \<le> n \<and> n \<le> 90 then char_of (n + 32) else ch)"

definition ascii_lower :: "string \<Rightarrow> string" where
  "ascii_lower s = map ascii_lower_char s"

text \<open>A geocoding answer of 100 km between any two places, one of 878 km, and one that
  finds no place.\<close>

definition hundred_km :: "string \<Rightarrow> string \<Rightarrow> real option" where
  "hundred_km a b = Some 100"

definition paris_berlin :: "string \<Rightarrow> string \<Rightarrow> real option" where
  "paris_berlin a b = Some 878"

definition nowhere :: "string \<Rightarrow> string \<Rightarrow> real option" where
  "nowhere a b = None"

section \<open>Calls that return\<close>


lemma deref_InrD: "deref xs = Inr rs \<Longrightarrow> xs = map Some rs"
proof (induction xs arbitrary: rs)
  case Nil
  then show ?case by simp
next
  case (Cons x xs)
  show ?case
  proof (cases x)
    case None
    with Cons.prems show ?thesis by simp
  next
    case (Some r)
    show ?thesis
    proof (cases "deref xs")
      case (Inl e)
      with Cons.prems Some show ?thesis by simp
    next
      case (Inr rs')
      with Cons.prems Some have rs: "rs = r # rs'" by simp
      from Cons.IH [OF Inr] have "xs = map Some rs'" .
      with Some rs show ?thesis by simp
    qed
  qed
qed

lemma deref_total: "None \<notin> set xs \<Longrightarrow> \<exists>rs. deref xs = Inr rs"
proof (induction xs)
  case Nil
  show ?case by simp
next
  case (Cons x xs)
  then obtain rs where rs: "deref xs = Inr rs" by auto
  from Cons.prems obtain r where "x = Some r" by (cases x) auto
  with rs show ?case by simp
qed

lemma price_lines_total:
  "None \<notin> fst ` set ls \<Longrightarrow> \<exists>st'. price_lines asd ls st = Inr st'"
proof (induction ls arbitrary: st)
  case Nil
  show ?case by simp
next
  case (Cons l ls)
  obtain bo q where l: "l = (bo, q)" by (cases l)
  from Cons.prems l obtain b where b: "bo = Some b" by (cases bo) auto
  from Cons.prems have "None \<notin> fst ` set ls" by auto
  from Cons.IH [OF this, of "price_line asd b q st"] show ?case by (simp add: l b)
qed

lemma running_total_total:
  assumes "None \<notin> set (discounts c)" and "None \<notin> fst ` set (books ord)"
  shows "\<exists>st. running_total now h c ord = Inr st"
proof -
  from deref_total [OF assms(1)] obtain ds where ds: "deref (discounts c) = Inr ds" ..
  from price_lines_total [OF assms(2)] obtain st' where
    "price_lines (filter (\<lambda>d. valid (h d) now \<and> truthy (author_specific (h d))) ds) (books ord)
        \<lparr>total_price = 0, heap = h, held = ds\<rparr> = Inr st'" ..
  then show ?thesis by (simp add: running_total_def ds)
qed

section \<open>The shipping threshold\<close>

lemma running_total_dune_1:
  "running_total 50 objects john_doe \<lparr>books = [(Some dune, 1)]\<rparr>
     = Inr \<lparr>total_price = 50, heap = objects, held = []\<rparr>"
  by (simp add: running_total_def john_doe_def dune_def price_line_def)

lemma running_total_dune_2:
  "running_total 50 objects john_doe \<lparr>books = [(Some dune, 2)]\<rparr>
     = Inr \<lparr>total_price = 100, heap = objects, held = []\<rparr>"
  by (simp add: running_total_def john_doe_def dune_def price_line_def)

text \<open>
  C7. For an order whose lines all name a book, priced for a customer whose list holds no
  \<open>None\<close>, the two loops return a running total. When that total is exactly 50 the
  returned price is the rounded sum of 50 and the shipping cost; when it is greater than
  50 the returned price is the rounded total alone, whatever the shipping cost is.
\<close>

theorem shipping_waiver_strict:
  assumes "None \<notin> set (discounts c)" and "None \<notin> fst ` set (books ord)"
  shows "\<exists>st. running_total now h c ord = Inr st \<and>
     (total_price st = 50 \<longrightarrow>
        calculate_total_price cd now h c ord =
          Inr (py_round2 (50 + shipping_cost cd ''paris'' (location c)), heap st,
               c\<lparr>discounts := map Some (held st)\<rparr>)) \<and>
     (total_price st > 50 \<longrightarrow>
        calculate_total_price cd now h c ord =
          Inr (py_round2 (total_price st), heap st, c\<lparr>discounts := map Some (held st)\<rparr>))"
proof -
  from running_total_total [OF assms] obtain st where st: "running_total now h c ord = Inr st" ..
  have a: "total_price st = 50 \<longrightarrow>
        calculate_total_price cd now h c ord =
          Inr (py_round2 (50 + shipping_cost cd ''paris'' (location c)), heap st,
               c\<lparr>discounts := map Some (held st)\<rparr>)"
    by (simp add: calculate_total_price_def st)
  have b: "total_price st > 50 \<longrightarrow>
        calculate_total_price cd now h c ord =
          Inr (py_round2 (total_price st), heap st, c\<lparr>discounts := map Some (held st)\<rparr>)"
    by (simp add: calculate_total_price_def st)
  from st a b show ?thesis by (intro exI conjI)
qed

text \<open>One copy of a book at 50 with a shipping cost of 2 is charged 52; two copies are
  charged 100.\<close>

theorem shipping_waiver_strict_witness:
  "calculate_total_price hundred_km 50 objects john_doe \<lparr>books = [(Some dune, 1)]\<rparr>
     = Inr (52, objects, john_doe) \<and>
   calculate_total_price hundred_km 50 objects john_doe \<lparr>books = [(Some dune, 2)]\<rparr>
     = Inr (100, objects, john_doe)"
proof -
  have d: "None \<notin> set (discounts john_doe)" by (simp add: john_doe_def)
  have b1: "None \<notin> fst ` set (books \<lparr>books = [(Some dune, 1)]\<rparr>)" by simp
  have b2: "None \<notin> fst ` set (books \<lparr>books = [(Some dune, 2)]\<rparr>)" by simp
  have j: "john_doe\<lparr>discounts := []\<rparr> = john_doe" by (simp add: john_doe_def)
  have r: "py_round2 52 = 52" "py_round2 100 = 100"
    by (simp_all add: py_round2_def round_half_even_def)
  have s: "shipping_cost hundred_km ''paris'' (location john_doe) = 2"
    by (simp add: shipping_cost_def hundred_km_def)
  from shipping_waiver_strict [OF d b1, of 50 objects hundred_km]
  have 1: "calculate_total_price hundred_km 50 objects john_doe \<lparr>books = [(Some dune, 1)]\<rparr>
     = Inr (52, objects, john_doe)"
    by (simp add: running_total_dune_1 j r s)
  from shipping_waiver_strict [OF d b2, of 50 objects hundred_km]
  have 2: "calculate_total_price hundred_km 50 objects john_doe \<lparr>books = [(Some dune, 2)]\<rparr>
     = Inr (100, objects, john_doe)"
    by (simp add: running_total_dune_2 j r)
  from 1 2 show ?thesis ..
qed

section \<open>The assignment rules\<close>

lemma length_assign: "length (assign d is cs) = length cs"
  by (induction "is" arbitrary: cs) simp_all

lemma assign_nth:
  assumes "distinct is" and "\<forall>i\<in>set is. i < length cs" and "j < length cs"
  shows "assign d is cs ! j = (if j \<in> set is then append_discount d (cs ! j) else cs ! j)"
  using assms
proof (induction "is" arbitrary: cs)
  case Nil
  then show ?case by simp
next
  case (Cons i "is")
  let ?cs = "cs[i := append_discount d (cs ! i)]"
  from Cons.prems have d: "distinct is" and ni: "i \<notin> set is" and i: "i < length cs" by simp_all
  from Cons.prems have r: "\<forall>k\<in>set is. k < length ?cs" by simp
  from Cons.prems have j: "j < length ?cs" by simp
  from Cons.IH [OF d r j]
  have "assign d is ?cs ! j = (if j \<in> set is then append_discount d (?cs ! j) else ?cs ! j)" .
  with ni i Cons.prems(3) show ?case by (cases "j = i") auto
qed

lemma assign_filter_nth:
  assumes "j < length cs"
  shows "assign d (filter P [0..<length cs]) cs ! j = (if P j then append_discount d (cs ! j) else cs ! j)"
proof -
  have 1: "distinct (filter P [0..<length cs])" by simp
  have 2: "\<forall>i\<in>set (filter P [0..<length cs]). i < length cs" by auto
  from assign_nth [OF 1 2 assms, of d] assms show ?thesis by simp
qed

lemma assign_all_nth:
  assumes "j < length cs"
  shows "assign d [0..<length cs] cs ! j = append_discount d (cs ! j)"
proof -
  have 1: "distinct [0..<length cs]" by simp
  have 2: "\<forall>i\<in>set [0..<length cs]. i < length cs" by auto
  from assign_nth [OF 1 2 assms, of d] assms show ?thesis by simp
qed

lemma one_year_customers_nth:
  assumes "i < length (md_customers md)"
  shows "md_customers (discount_one_year_customers today h md k) ! i =
    (if one_year today (md_customers md ! i)
     then append_discount (select_discount h md k) (md_customers md ! i)
     else md_customers md ! i)"
  using assms by (simp add: discount_one_year_customers_def assign_filter_nth)

lemma black_friday_nth:
  assumes "i < length (md_customers md)"
  shows "md_customers (discount_black_friday today h md k) ! i =
    (if month today = 11 \<and> day today = 24
     then append_discount (select_discount h md k) (md_customers md ! i)
     else md_customers md ! i)"
proof -
  have "(today = \<lparr>year = year today, month = 11, day = 24\<rparr>) = (month today = 11 \<and> day today = 24)"
    by (cases today) simp
  with assms show ?thesis by (simp add: discount_black_friday_def assign_all_nth)
qed

lemma location_nth:
  assumes "i < length (md_customers md)"
  shows "md_customers (discount_location lower h md k loc) ! i =
    (if location (md_customers md ! i) = lower loc
     then append_discount (select_discount h md k) (md_customers md ! i)
     else md_customers md ! i)"
  using assms by (simp add: discount_location_def select_customers_def assign_filter_nth)

lemma black_friday_frame:
  "length (md_customers (discount_black_friday today h md k)) = length (md_customers md)"
  "md_discounts (discount_black_friday today h md k) = md_discounts md"
  by (simp_all add: discount_black_friday_def length_assign)

text \<open>The sample data evaluated.\<close>

lemma ord_bf: "toordinal black_friday = 738848"
  by (simp add: black_friday_def toordinal_def days_before_year_def days_before_month_def is_leap_def)

lemma ord_john: "toordinal (signup_date john_doe) = 737439"
  by (simp add: john_doe_def toordinal_def days_before_year_def days_before_month_def is_leap_def)

lemma ord_jane: "toordinal (signup_date jane) = 738672"
  by (simp add: jane_def toordinal_def days_before_year_def days_before_month_def is_leap_def)

lemma oy_john: "one_year black_friday john_doe"
  by (simp add: one_year_def ord_bf ord_john)

lemma oy_jane: "\<not> one_year black_friday jane"
  by (simp add: one_year_def ord_bf ord_jane)

lemma sel: "select_discount objects sample_data 1 = Some 0" "select_discount objects sample_data 2 = Some 1"
  "select_discount objects sample_data 3 = Some 2" "select_discount objects sample_data 99 = None"
  by (simp_all add: select_discount_def sample_data_def objects_def tenure_def seasonal_def adams_def)

lemma sample_customers:
  "length (md_customers sample_data) = 2"
  "md_customers sample_data ! 0 = john_doe"
  "md_customers sample_data ! 1 = jane"
  "md_customers sample_data ! Suc 0 = jane"
  by (simp_all add: sample_data_def)

lemma bf_day: "month black_friday = 11" "day black_friday = 24"
  by (simp_all add: black_friday_def)

lemma no_discounts: "discounts john_doe = []" "discounts jane = []"
  by (simp_all add: john_doe_def jane_def)

text \<open>
  C3. The claim has the tenure rule (discount 1) run before the Black Friday rule
  (discount 2). On 24 November the customer john_doe, who signed up in 2020, receives
  under \<open>run_all_discount_rules\<close> the discount of id 2 first and the discount of id 1
  second; the order of the claim would give them the other way round.
\<close>

theorem run_all_order_counterexample:
  "discounts (md_customers (run_all_discount_rules black_friday objects sample_data) ! 0)
     = [Some 1, Some 0] \<and>
   discounts (md_customers (discount_black_friday black_friday objects
       (discount_one_year_customers black_friday objects sample_data 1) 2) ! 0)
     = [Some 0, Some 1]"
proof -
  let ?bf = "discount_black_friday black_friday objects sample_data 2"
  let ?oy = "discount_one_year_customers black_friday objects sample_data 1"
  have bf: "md_customers ?bf ! 0 = append_discount (Some 1) john_doe"
    by (simp add: black_friday_nth sample_customers bf_day sel)
  have "md_customers (discount_one_year_customers black_friday objects ?bf 1) ! 0
      = append_discount (select_discount objects ?bf 1) (append_discount (Some 1) john_doe)"
    by (simp add: one_year_customers_nth black_friday_frame sample_customers bf one_year_def
        append_discount_def ord_bf ord_john)
  moreover have "select_discount objects ?bf 1 = Some 0"
    by (simp add: select_discount_def black_friday_frame sel [unfolded select_discount_def])
  ultimately have 1:
    "discounts (md_customers (run_all_discount_rules black_friday objects sample_data) ! 0)
       = [Some 1, Some 0]"
    by (simp add: run_all_discount_rules_def append_discount_def no_discounts)
  have oy: "md_customers ?oy ! 0 = append_discount (Some 0) john_doe"
    by (simp add: one_year_customers_nth sample_customers oy_john sel)
  have l: "length (md_customers ?oy) = 2"
    by (simp add: discount_one_year_customers_def length_assign sample_customers)
  have s: "select_discount objects ?oy 2 = Some 1"
    by (simp add: select_discount_def discount_one_year_customers_def sel [unfolded select_discount_def])
  have 2: "discounts (md_customers (discount_black_friday black_friday objects ?oy 2) ! 0)
     = [Some 0, Some 1]"
    by (simp add: black_friday_nth l bf_day oy s append_discount_def no_discounts)
  from 1 2 show ?thesis ..
qed


text \<open>
  C3, as the code has it: \<open>run_all_discount_rules\<close> runs the Black Friday rule with
  discount 2 and then the tenure rule with discount 1. Every customer's list grows at its
  end by the discount of id 2 when the day is 24 November, and after it by the discount of
  id 1 when the account is at least 365 days old.
\<close>

theorem run_all_order:
  assumes "i < length (md_customers md)"
  shows "discounts (md_customers (run_all_discount_rules today h md) ! i) =
     discounts (md_customers md ! i)
     @ (if month today = 11 \<and> day today = 24 then [select_discount h md 2] else [])
     @ (if one_year today (md_customers md ! i) then [select_discount h md 1] else [])"
proof -
  let ?md = "discount_black_friday today h md 2"
  from assms have i: "i < length (md_customers ?md)" by (simp add: black_friday_frame)
  have s: "select_discount h ?md 1 = select_discount h md 1"
    by (simp add: select_discount_def black_friday_frame)
  have c: "md_customers ?md ! i =
    (if month today = 11 \<and> day today = 24
     then append_discount (select_discount h md 2) (md_customers md ! i)
     else md_customers md ! i)"
    using assms by (rule black_friday_nth)
  have "md_customers (run_all_discount_rules today h md) ! i =
    (if one_year today (md_customers ?md ! i)
     then append_discount (select_discount h md 1) (md_customers ?md ! i)
     else md_customers ?md ! i)"
    unfolding run_all_discount_rules_def using one_year_customers_nth [OF i, of today h 1]
    by (simp only: s)
  then show ?thesis by (simp add: c append_discount_def one_year_def)
qed

theorem run_all_order_witness:
  "0 < length (md_customers sample_data) \<and>
   discounts (md_customers (run_all_discount_rules black_friday objects sample_data) ! 0)
     = [Some 1, Some 0]"
  using run_all_order [of 0 sample_data black_friday objects]
  by (simp add: sample_customers bf_day oy_john sel no_discounts)

lemma lower_samples:
  "ascii_lower ''paris'' = ''paris''" "ascii_lower ''PARIS'' = ''paris''"
  "ascii_lower ''BERLIN'' = ''berlin''"
  by code_simp+

lemma locations: "location john_doe = ''berlin''" "location jane = ''PARIS''"
  by (simp_all add: john_doe_def jane_def)

text \<open>
  C4. The claim has the location rule compare the two locations without regard to letter
  case. The rule lower-cases the target and compares the result, letter for letter, with
  the location as it is stored. The customer jane is stored with the location PARIS. For
  every target that \<open>lower\<close> does not turn into PARIS itself, the rule leaves her
  list as it was: she is not given the discount for the target paris, nor for the target
  PARIS.
\<close>

theorem location_rule_case_slip:
  assumes "lower t \<noteq> ''PARIS''"
  shows "md_customers sample_data ! 1 = jane \<and> location jane = ''PARIS'' \<and>
         discounts (md_customers (discount_location lower objects sample_data 2 t) ! 1) = []"
proof -
  have "1 < length (md_customers sample_data)" by (simp add: sample_customers)
  from location_nth [OF this, of lower objects 2 t] assms show ?thesis
    by (simp add: sample_customers locations no_discounts)
qed

theorem location_rule_case_slip_witness:
  "ascii_lower ''PARIS'' \<noteq> ''PARIS'' \<and> ascii_lower ''paris'' \<noteq> ''PARIS'' \<and>
   md_customers sample_data ! 1 = jane \<and> location jane = ''PARIS'' \<and>
   discounts (md_customers (discount_location ascii_lower objects sample_data 2 ''PARIS'') ! 1)
     = [] \<and>
   discounts (md_customers (discount_location ascii_lower objects sample_data 2 ''paris'') ! 1)
     = []"
proof -
  have 1: "ascii_lower ''PARIS'' \<noteq> ''PARIS''" by (simp add: lower_samples)
  have 2: "ascii_lower ''paris'' \<noteq> ''PARIS''" by (simp add: lower_samples)
  from location_rule_case_slip [where lower = ascii_lower and t = "''PARIS''", OF 1]
    location_rule_case_slip [where lower = ascii_lower and t = "''paris''", OF 2] 1 2
  show ?thesis by blast
qed

section \<open>Keys that are not found\<close>

lemma select_discount_unknown:
  "k \<notin> (\<lambda>d. id_no (h d)) ` set (md_discounts md) \<Longrightarrow> select_discount h md k = None"
  by (auto simp: select_discount_def find_None_iff)

lemma deref_None: "None \<in> set xs \<Longrightarrow> deref xs = Inl AttributeError"
proof (induction xs)
  case Nil
  then show ?case by simp
next
  case (Cons x xs)
  show ?case
  proof (cases x)
    case None
    then show ?thesis by simp
  next
    case (Some r)
    with Cons.prems have "None \<in> set xs" by simp
    from Cons.IH [OF this] Some show ?thesis by simp
  qed
qed

lemma phantom_raises:
  "None \<in> set (discounts c) \<Longrightarrow> calculate_total_price cd now h c ord = Inl AttributeError"
  by (simp add: calculate_total_price_def running_total_def deref_None)

text \<open>
  C5. The claim has every rule fail on an unknown discount id and leave every list as it
  was. With the id 99, which no discount has, the tenure rule returns normally and has
  appended \<open>None\<close> to the list of john_doe.
\<close>

theorem unknown_discount_id_counterexample:
  "select_discount objects sample_data 99 = None \<and>
   md_customers sample_data ! 0 = john_doe \<and> discounts john_doe = [] \<and>
   discounts (md_customers (discount_one_year_customers black_friday objects sample_data 99) ! 0)
     = [None]"
  by (simp add: one_year_customers_nth sample_customers oy_john sel no_discounts append_discount_def)

text \<open>
  C5, as the code has it: \<open>select_discount\<close> answers \<open>None\<close> for an id that no
  discount of the master data has, and raises nothing. The tenure, Black Friday and
  location rules then append that \<open>None\<close> to the list of every customer they select.
  The author rule raises an attribute error before it touches a customer. Pricing an order
  of a customer whose list has received such a \<open>None\<close> raises an attribute error.
\<close>

theorem unknown_discount_id:
  assumes "k \<notin> (\<lambda>d. id_no (h d)) ` set (md_discounts md)" and "i < length (md_customers md)"
  shows "select_discount h md k = None \<and>
    discounts (md_customers (discount_one_year_customers today h md k) ! i) =
      (if one_year today (md_customers md ! i)
       then discounts (md_customers md ! i) @ [None] else discounts (md_customers md ! i)) \<and>
    discounts (md_customers (discount_black_friday today h md k) ! i) =
      (if month today = 11 \<and> day today = 24
       then discounts (md_customers md ! i) @ [None] else discounts (md_customers md ! i)) \<and>
    discounts (md_customers (discount_location lower h md k loc) ! i) =
      (if location (md_customers md ! i) = lower loc
       then discounts (md_customers md ! i) @ [None] else discounts (md_customers md ! i)) \<and>
    discount_specific_author h md k a = Inl AttributeError \<and>
    calculate_total_price cd now h (append_discount (select_discount h md k) c) ord
      = Inl AttributeError"
proof -
  from assms(1) have s: "select_discount h md k = None" by (rule select_discount_unknown)
  from one_year_customers_nth [OF assms(2), of today h k]
  have 1: "discounts (md_customers (discount_one_year_customers today h md k) ! i) =
           (if one_year today (md_customers md ! i)
            then discounts (md_customers md ! i) @ [None] else discounts (md_customers md ! i))"
    by (simp add: s append_discount_def)
  from black_friday_nth [OF assms(2), of today h k]
  have 2: "discounts (md_customers (discount_black_friday today h md k) ! i) =
           (if month today = 11 \<and> day today = 24
            then discounts (md_customers md ! i) @ [None] else discounts (md_customers md ! i))"
    by (simp add: s append_discount_def)
  from location_nth [OF assms(2), of lower h k loc]
  have 3: "discounts (md_customers (discount_location lower h md k loc) ! i) =
           (if location (md_customers md ! i) = lower loc
            then discounts (md_customers md ! i) @ [None] else discounts (md_customers md ! i))"
    by (simp add: s append_discount_def)
  have 4: "discount_specific_author h md k a = Inl AttributeError"
    by (simp add: discount_specific_author_def s)
  have "None \<in> set (discounts (append_discount (select_discount h md k) c))"
    by (simp add: s append_discount_def)
  then have 5: "calculate_total_price cd now h (append_discount (select_discount h md k) c) ord
           = Inl AttributeError"
    by (rule phantom_raises)
  from s 1 2 3 4 5 show ?thesis by (intro conjI)
qed

lemma unknown_id_99: "99 \<notin> (\<lambda>d. id_no (objects d)) ` set (md_discounts sample_data)"
  by (simp add: sample_data_def objects_def tenure_def seasonal_def adams_def)

theorem unknown_discount_id_witness:
  "99 \<notin> (\<lambda>d. id_no (objects d)) ` set (md_discounts sample_data) \<and>
   0 < length (md_customers sample_data) \<and>
   select_discount objects sample_data 99 = None \<and>
   discounts (md_customers (discount_one_year_customers black_friday objects sample_data 99) ! 0)
     = [None] \<and>
   discounts (md_customers (discount_black_friday black_friday objects sample_data 99) ! 0)
     = [None] \<and>
   discounts (md_customers (discount_location ascii_lower objects sample_data 99 ''BERLIN'') ! 0)
     = [None] \<and>
   discount_specific_author objects sample_data 99 ''Douglas Adams'' = Inl AttributeError \<and>
   calculate_total_price nowhere 50 objects
       (append_discount (select_discount objects sample_data 99) john_doe) \<lparr>books = []\<rparr>
     = Inl AttributeError"
proof -
  have l: "0 < length (md_customers sample_data)" by (simp add: sample_customers)
  from unknown_discount_id [OF unknown_id_99 l, of black_friday ascii_lower "''BERLIN''"
      "''Douglas Adams''" nowhere 50 john_doe "\<lparr>books = []\<rparr>"]
  show ?thesis
    by (simp add: unknown_id_99 sample_customers oy_john bf_day locations lower_samples
        no_discounts sel)
qed

lemma first_index_None: "(first_index P xs = None) = (\<not> (\<exists>x\<in>set xs. P x))"
  by (induction xs) simp_all

lemma first_index_Some: "first_index P xs = Some i \<Longrightarrow> i < length xs \<and> P (xs ! i)"
proof (induction xs arbitrary: i)
  case Nil
  then show ?case by simp
next
  case (Cons x xs)
  show ?case
  proof (cases "P x")
    case True
    with Cons.prems show ?thesis by simp
  next
    case False
    with Cons.prems obtain j where j: "first_index P xs = Some j" and i: "i = Suc j" by auto
    from Cons.IH [OF j] i show ?thesis by simp
  qed
qed

lemma foldl_add_book:
  "foldl (\<lambda>ord (b, quantity). add_book ord b quantity) ord sel = ord\<lparr>books := books ord @ sel\<rparr>"
  by (induction sel arbitrary: ord) (simp_all add: add_book_def split_def)

lemma place_order_order: "order (place_order c sel) = Some \<lparr>books = sel\<rparr>"
  by (simp add: place_order_def foldl_add_book)

lemma only_error: "(e :: error) = AttributeError"
  by (cases e)

lemma missing_book_raises:
  "calculate_total_price cd now h c \<lparr>books = (None, q) # ls\<rparr> = Inl AttributeError"
  by (cases "deref (discounts c)")
    (simp_all add: calculate_total_price_def running_total_def only_error)

lemma select_book_unknown: "t \<notin> title ` set (md_books md) \<Longrightarrow> select_book md t = None"
  by (auto simp: select_book_def find_None_iff)

lemma select_customer_unknown:
  "name \<notin> username ` set (md_customers md) \<Longrightarrow> select_customer md name = None"
  by (auto simp: select_customer_def first_index_None)

text \<open>
  C6. The claim has the lookup of an unknown title fail and no order be created. With a
  title that no book has, \<open>select_book\<close> answers \<open>None\<close> and the caller's sequence
  places an order whose line holds \<open>None\<close> in the place of the book.
\<close>

theorem unknown_title_or_username_counterexample:
  "select_book sample_data ''Missing'' = None \<and>
   main_place_order sample_data ''john_doe'' [(''Missing'', 1)] =
     Inr (sample_data\<lparr>md_customers :=
            [john_doe\<lparr>order := Some \<lparr>books = [(None, 1)]\<rparr>\<rparr>, jane]\<rparr>)"
  by (simp add: main_place_order_def select_book_def select_customer_def place_order_def
      add_book_def sample_data_def john_doe_def jane_def guide_def restaurant_def dune_def)

text \<open>
  C6, as the code has it: \<open>select_book\<close> and \<open>select_customer\<close> answer \<open>None\<close>
  for a key that is not found and raise nothing. For an unknown title and a known
  customer the order is placed with \<open>None\<close> as the book of the line, and pricing that
  order raises an attribute error. For an unknown username the call of \<open>place_order\<close> on
  \<open>None\<close> raises an attribute error, so no order is placed.
\<close>

theorem unknown_title_or_username:
  "(t \<notin> title ` set (md_books md) \<longrightarrow>
      select_book md t = None \<and>
      (\<forall>i. select_customer md name = Some i \<longrightarrow>
         (\<exists>md'. main_place_order md name [(t, q)] = Inr md' \<and>
            order (md_customers md' ! i) = Some \<lparr>books = [(None, q)]\<rparr> \<and>
            calculate_total_price cd now h (md_customers md' ! i) \<lparr>books = [(None, q)]\<rparr>
              = Inl AttributeError))) \<and>
   (name \<notin> username ` set (md_customers md) \<longrightarrow>
      select_customer md name = None \<and> main_place_order md name sel = Inl AttributeError)"
proof (intro conjI impI allI)
  assume t: "t \<notin> title ` set (md_books md)"
  then show b: "select_book md t = None" by (rule select_book_unknown)
  fix i
  assume i: "select_customer md name = Some i"
  then have l: "i < length (md_customers md)"
    using first_index_Some [of "\<lambda>c. username c = name" "md_customers md" i]
    by (simp add: select_customer_def)
  let ?md = "md\<lparr>md_customers :=
      (md_customers md)[i := place_order (md_customers md ! i) [(None, q)]]\<rparr>"
  have 1: "main_place_order md name [(t, q)] = Inr ?md"
    by (simp add: main_place_order_def i b)
  from l have 2: "order (md_customers ?md ! i) = Some \<lparr>books = [(None, q)]\<rparr>"
    by (simp add: place_order_order)
  have 3: "calculate_total_price cd now h (md_customers ?md ! i) \<lparr>books = [(None, q)]\<rparr>
              = Inl AttributeError"
    by (rule missing_book_raises)
  from 1 2 3 show "\<exists>md'. main_place_order md name [(t, q)] = Inr md' \<and>
            order (md_customers md' ! i) = Some \<lparr>books = [(None, q)]\<rparr> \<and>
            calculate_total_price cd now h (md_customers md' ! i) \<lparr>books = [(None, q)]\<rparr>
              = Inl AttributeError"
    by (intro exI conjI)
next
  assume "name \<notin> username ` set (md_customers md)"
  then show s: "select_customer md name = None" by (rule select_customer_unknown)
  then show "main_place_order md name sel = Inl AttributeError"
    by (simp add: main_place_order_def)
qed

lemma titles: "''Missing'' \<notin> title ` set (md_books sample_data)"
  by (simp add: sample_data_def guide_def restaurant_def dune_def)

lemma usernames: "''nobody'' \<notin> username ` set (md_customers sample_data)"
  by (simp add: sample_data_def john_doe_def jane_def)

lemma select_john: "select_customer sample_data ''john_doe'' = Some 0"
  by (simp add: select_customer_def sample_data_def john_doe_def)

theorem unknown_title_or_username_witness:
  "''Missing'' \<notin> title ` set (md_books sample_data) \<and>
   ''nobody'' \<notin> username ` set (md_customers sample_data) \<and>
   select_customer sample_data ''john_doe'' = Some 0 \<and>
   select_book sample_data ''Missing'' = None \<and>
   (\<exists>md'. main_place_order sample_data ''john_doe'' [(''Missing'', 1)] = Inr md' \<and>
      order (md_customers md' ! 0) = Some \<lparr>books = [(None, 1)]\<rparr> \<and>
      calculate_total_price nowhere 50 objects (md_customers md' ! 0) \<lparr>books = [(None, 1)]\<rparr>
        = Inl AttributeError) \<and>
   select_customer sample_data ''nobody'' = None \<and>
   main_place_order sample_data ''nobody'' [(''Dune'', 1)] = Inl AttributeError"
  using unknown_title_or_username [of "''Missing''" sample_data "''john_doe''" 1 nowhere 50 objects "[(''Dune'', 1)]"]
    unknown_title_or_username [of "''Missing''" sample_data "''nobody''" 1 nowhere 50 objects "[(''Dune'', 1)]"]
    titles usernames select_john
  by blast

section \<open>What the two loops change\<close>

lemma consume_total: "total_price (consume d st) = total_price st"
  by (simp add: consume_def Let_def)

lemma consume_heap: "heap (consume d st) = (heap st)(d := (heap st d)\<lparr>nb_usage := nb_usage (heap st d) - 1\<rparr>)"
  by (simp add: consume_def Let_def)

lemma consume_held:
  "held (consume d st) =
     (if nb_usage (heap st d) = 1
      then filter (\<lambda>x. id_no (heap st x) \<noteq> id_no (heap st d)) (held st)
      else held st)"
  by (auto simp: consume_def Let_def intro!: filter_cong)

lemma consume_fields:
  "id_no (heap (consume d st) x) = id_no (heap st x)"
  "author_specific (heap (consume d st) x) = author_specific (heap st x)"
  "amount (heap (consume d st) x) = amount (heap st x)"
  by (simp_all add: consume_heap)

lemma consume_usage:
  "nb_usage (heap (consume d st) x) = nb_usage (heap st x) - (if x = d then 1 else 0)"
  by (simp add: consume_heap)

lemma consume_held_subset: "set (held (consume d st)) \<subseteq> set (held st)"
  by (auto simp: consume_held)

lemma consume_held_keep:
  "r \<in> set (held st) \<Longrightarrow> id_no (heap st d) \<noteq> id_no (heap st r) \<Longrightarrow> r \<in> set (held (consume d st))"
  by (auto simp: consume_held)

lemma price_line_cases:
  "(\<exists>t. price_line asd b q st = st\<lparr>total_price := t\<rparr>) \<or>
   (\<exists>t d. d \<in> set asd \<and> price_line asd b q st = consume d (st\<lparr>total_price := t\<rparr>))"
proof (cases "List.find (\<lambda>d. author_specific (heap st d) = Some (author b)) asd")
  case None
  then have "price_line asd b q st =
      st\<lparr>total_price := total_price st + price b * 1 * of_int q\<rparr>"
    by (simp add: price_line_def)
  then show ?thesis by blast
next
  case (Some d)
  then have d: "d \<in> set asd" by (auto simp: find_Some_iff)
  from Some have "price_line asd b q st =
      consume d (st\<lparr>total_price :=
        total_price st + price b * (1 - amount (heap st d)) * of_int q\<rparr>)"
    by (simp add: price_line_def)
  with d show ?thesis by blast
qed

lemma price_line_fields:
  "id_no (heap (price_line asd b q st) x) = id_no (heap st x)"
  "author_specific (heap (price_line asd b q st) x) = author_specific (heap st x)"
  "amount (heap (price_line asd b q st) x) = amount (heap st x)"
  using price_line_cases [of asd b q st] by (auto simp: consume_fields)

lemma price_line_heap_other:
  "r \<notin> set asd \<Longrightarrow> heap (price_line asd b q st) r = heap st r"
  using price_line_cases [of asd b q st] by (auto simp: consume_heap)

lemma price_line_held_subset: "set (held (price_line asd b q st)) \<subseteq> set (held st)"
  using price_line_cases [of asd b q st] consume_held_subset by fastforce

lemma price_line_held_keep:
  assumes "r \<in> set (held st)" and "\<forall>d\<in>set asd. id_no (heap st d) \<noteq> id_no (heap st r)"
  shows "r \<in> set (held (price_line asd b q st))"
proof -
  from price_line_cases [of asd b q st] show ?thesis
  proof
    assume "\<exists>t. price_line asd b q st = st\<lparr>total_price := t\<rparr>"
    with assms(1) show ?thesis by auto
  next
    assume "\<exists>t d. d \<in> set asd \<and> price_line asd b q st = consume d (st\<lparr>total_price := t\<rparr>)"
    then obtain t d where d: "d \<in> set asd"
      and p: "price_line asd b q st = consume d (st\<lparr>total_price := t\<rparr>)" by blast
    from d assms(2) have "id_no (heap st d) \<noteq> id_no (heap st r)" by blast
    with assms(1) have "r \<in> set (held (consume d (st\<lparr>total_price := t\<rparr>)))"
      by (intro consume_held_keep) simp_all
    with p show ?thesis by simp
  qed
qed

lemma price_lines_frame:
  assumes "price_lines asd ls st = Inr st'"
  shows "(\<forall>x. id_no (heap st' x) = id_no (heap st x)) \<and>
         (\<forall>x. x \<notin> set asd \<longrightarrow> heap st' x = heap st x) \<and>
         set (held st') \<subseteq> set (held st)"
  using assms
proof (induction ls arbitrary: st)
  case Nil
  then show ?case by simp
next
  case (Cons l ls)
  obtain bo q where l: "l = (bo, q)" by (cases l)
  show ?case
  proof (cases bo)
    case None
    with Cons.prems l show ?thesis by simp
  next
    case (Some b)
    with Cons.prems l have "price_lines asd ls (price_line asd b q st) = Inr st'" by simp
    from Cons.IH [OF this] price_line_held_subset [of asd b q st]
    show ?thesis by (auto simp: price_line_fields price_line_heap_other)
  qed
qed

lemma price_lines_held_keep:
  assumes "price_lines asd ls st = Inr st'"
    and "r \<in> set (held st)" and "\<forall>d\<in>set asd. id_no (heap st d) \<noteq> id_no (heap st r)"
  shows "r \<in> set (held st')"
  using assms
proof (induction ls arbitrary: st)
  case Nil
  then show ?case by simp
next
  case (Cons l ls)
  obtain bo q where l: "l = (bo, q)" by (cases l)
  show ?case
  proof (cases bo)
    case None
    with Cons.prems l show ?thesis by simp
  next
    case (Some b)
    let ?st = "price_line asd b q st"
    from Some Cons.prems l have 1: "price_lines asd ls ?st = Inr st'" by simp
    from Cons.prems have 2: "r \<in> set (held ?st)" by (intro price_line_held_keep)
    from Cons.prems have 3: "\<forall>d\<in>set asd. id_no (heap ?st d) \<noteq> id_no (heap ?st r)"
      by (simp add: price_line_fields)
    from Cons.IH [OF 1 2 3] show ?thesis .
  qed
qed

lemma apply_discount_fields:
  "id_no (heap (apply_discount d st) x) = id_no (heap st x)"
  by (simp add: apply_discount_def consume_fields)

lemma apply_discount_usage:
  "nb_usage (heap (apply_discount d st) x) = nb_usage (heap st x) - (if x = d then 1 else 0)"
  by (simp add: apply_discount_def consume_usage)

lemma apply_discount_heap_other: "x \<noteq> d \<Longrightarrow> heap (apply_discount d st) x = heap st x"
  by (simp add: apply_discount_def consume_heap)

lemma apply_discount_held:
  "held (apply_discount d st) =
     (if nb_usage (heap st d) = 1
      then filter (\<lambda>x. id_no (heap st x) \<noteq> id_no (heap st d)) (held st)
      else held st)"
  by (simp add: apply_discount_def consume_held)

lemma apply_discounts_ids: "id_no (heap (apply_discounts vd st) x) = id_no (heap st x)"
  by (induction vd arbitrary: st) (simp_all add: apply_discount_fields)

lemma apply_discounts_heap_other:
  "r \<notin> set vd \<Longrightarrow> heap (apply_discounts vd st) r = heap st r"
  by (induction vd arbitrary: st) (simp_all add: apply_discount_heap_other)

lemma apply_discounts_held_subset: "set (held (apply_discounts vd st)) \<subseteq> set (held st)"
proof (induction vd arbitrary: st)
  case Nil
  show ?case by simp
next
  case (Cons d vd)
  have "set (held (apply_discount d st)) \<subseteq> set (held st)"
    by (auto simp: apply_discount_held)
  with Cons.IH [of "apply_discount d st"] show ?case by auto
qed

lemma apply_discounts_held_keep:
  assumes "r \<in> set (held st)" and "\<forall>d\<in>set vd. id_no (heap st d) \<noteq> id_no (heap st r)"
  shows "r \<in> set (held (apply_discounts vd st))"
  using assms
proof (induction vd arbitrary: st)
  case Nil
  then show ?case by simp
next
  case (Cons d vd)
  let ?st = "apply_discount d st"
  from Cons.prems have 1: "r \<in> set (held ?st)" by (auto simp: apply_discount_held)
  from Cons.prems have 2: "\<forall>x\<in>set vd. id_no (heap ?st x) \<noteq> id_no (heap ?st r)"
    by (simp add: apply_discount_fields)
  from Cons.IH [OF 1 2] show ?case by simp
qed

lemma apply_discounts_usage:
  "nb_usage (heap (apply_discounts vd st) r) = nb_usage (heap st r) - int (count_list vd r)"
  by (induction vd arbitrary: st) (simp_all add: apply_discount_usage)

lemma apply_discounts_removed:
  assumes "1 \<le> nb_usage (heap st r)" and "nb_usage (heap st r) \<le> int (count_list vd r)"
  shows "r \<notin> set (held (apply_discounts vd st))"
  using assms
proof (induction vd arbitrary: st)
  case Nil
  then show ?case by simp
next
  case (Cons d vd)
  let ?st = "apply_discount d st"
  show ?case
  proof (cases "d = r \<and> nb_usage (heap st r) = 1")
    case True
    then have "r \<notin> set (held ?st)" by (simp add: apply_discount_held)
    with apply_discounts_held_subset [of vd ?st] show ?thesis by auto
  next
    case False
    with Cons.prems have 1: "1 \<le> nb_usage (heap ?st r)"
      by (auto simp: apply_discount_usage)
    from False Cons.prems have 2: "nb_usage (heap ?st r) \<le> int (count_list vd r)"
      by (auto simp: apply_discount_usage split: if_splits)
    from Cons.IH [OF 1 2] show ?thesis by simp
  qed
qed

lemma apply_discounts_zero:
  "total_price st = 0 \<Longrightarrow> total_price (apply_discounts vd st) = 0"
  by (induction vd arbitrary: st) (simp_all add: apply_discount_def consume_total)

lemma count_list_filter: "count_list (filter P xs) r = (if P r then count_list xs r else 0)"
  by (induction xs) auto

lemma count_list_map_Some: "count_list (map Some xs) (Some r) = count_list xs r"
  by (induction xs) auto

lemma lines_total_Inr:
  assumes "deref (discounts c) = Inr ds"
    and "price_lines (filter (\<lambda>d. valid (h d) now \<and> truthy (author_specific (h d))) ds)
            (books ord) \<lparr>total_price = 0, heap = h, held = ds\<rparr> = Inr st1"
  shows "lines_total now h c ord = Inr (total_price st1)"
  using assms by (simp add: lines_total_def)

lemma count_list_pos: "x \<in> set xs \<Longrightarrow> 0 < count_list xs x"
  by (induction xs) auto

lemma running_total_Inr:
  assumes "deref (discounts c) = Inr ds" and "None \<notin> fst ` set (books ord)"
  shows "\<exists>st1. price_lines (filter (\<lambda>d. valid (h d) now \<and> truthy (author_specific (h d))) ds)
            (books ord) \<lparr>total_price = 0, heap = h, held = ds\<rparr> = Inr st1 \<and>
          running_total now h c ord =
            Inr (apply_discounts
                   (filter (\<lambda>d. valid (h d) now \<and> \<not> truthy (author_specific (h d))) ds) st1)"
proof -
  from price_lines_total [OF assms(2)] obtain st1 where
    "price_lines (filter (\<lambda>d. valid (h d) now \<and> truthy (author_specific (h d))) ds) (books ord)
        \<lparr>total_price = 0, heap = h, held = ds\<rparr> = Inr st1" ..
  then show ?thesis by (simp add: running_total_def assms(1))
qed

lemma calculate_Inr:
  "running_total now h c ord = Inr st \<Longrightarrow>
   calculate_total_price cd now h c ord =
     Inr (py_round2 (total_price st +
            (if total_price st > 50 then 0 else shipping_cost cd ''paris'' (location c))),
          heap st, c\<lparr>discounts := map Some (held st)\<rparr>)"
  by (simp add: calculate_total_price_def Let_def)



















section \<open>One calculation\<close>

lemmas pricing_defs =
  calculate_total_price_def running_total_def price_line_def consume_def apply_discount_def
  valid_def truthy_def shipping_cost_def py_round2_def round_half_even_def

lemmas sample_defs =
  objects_def tenure_def seasonal_def adams_def john_doe_def guide_def restaurant_def
  dune_def foundation_def nowhere_def hundred_km_def paris_berlin_def

text \<open>
  C1. The discount of id 3 is scoped to Douglas Adams and has one use left. The order has
  two lines by that author, at 10 and at 20. The claim has the discount applied to the
  first line only, which gives 6 + 20 = 26. The code takes the discount for every line from
  the list it computed before the loop, so the second line is discounted too: the price
  is 6 + 12 = 18, and the counter ends at -1. The discount is removed from the customer's
  list after the first line, as the claim says.
\<close>

theorem exhausted_discount_reused:
  "calculate_total_price nowhere 50 objects (john_doe\<lparr>discounts := [Some 2]\<rparr>)
      \<lparr>books = [(Some guide, 1), (Some restaurant, 1)]\<rparr>
   = Inr (18, objects(2 := adams\<lparr>nb_usage := - 1\<rparr>), john_doe)"
  by (simp add: pricing_defs sample_defs)

text \<open>
  C2. The same discount on an order of three lines by its author: it starts with one use
  left, is applied three times, and its counter ends at -2.
\<close>

theorem usage_below_zero:
  "nb_usage (objects 2) = 1 \<and>
   calculate_total_price nowhere 50 objects (john_doe\<lparr>discounts := [Some 2]\<rparr>)
      \<lparr>books = [(Some guide, 1), (Some restaurant, 1), (Some guide, 1)]\<rparr>
   = Inr (24, objects(2 := adams\<lparr>nb_usage := - 2\<rparr>), john_doe)"
  by (simp add: pricing_defs sample_defs)

text \<open>
  C8. A general discount that is not valid when the price is calculated keeps all its
  fields, its counter among them; and it stays in the customer's list when no other
  discount of the list has its id (the removal of an exhausted discount goes by id). The
  order's lines all name a book and the customer's list holds no \<open>None\<close>, so the call
  returns.
\<close>

theorem invalid_general_untouched:
  assumes "None \<notin> set (discounts c)" and "None \<notin> fst ` set (books ord)"
    and "Some r \<in> set (discounts c)"
    and "\<not> valid (h r) now" and "\<not> truthy (author_specific (h r))"
  shows "\<exists>t h' c'. calculate_total_price cd now h c ord = Inr (t, h', c') \<and>
           h' r = h r \<and>
           ((\<forall>r'. Some r' \<in> set (discounts c) \<and> id_no (h r') = id_no (h r) \<longrightarrow> r' = r)
              \<longrightarrow> Some r \<in> set (discounts c'))"
proof -
  from deref_total [OF assms(1)] obtain ds where ds: "deref (discounts c) = Inr ds" ..
  then have dc: "discounts c = map Some ds" by (rule deref_InrD)
  let ?asd = "filter (\<lambda>d. valid (h d) now \<and> truthy (author_specific (h d))) ds"
  let ?vd = "filter (\<lambda>d. valid (h d) now \<and> \<not> truthy (author_specific (h d))) ds"
  let ?st0 = "\<lparr>total_price = 0, heap = h, held = ds\<rparr>"
  from running_total_Inr [OF ds assms(2), of h now] obtain st1 where
    pl: "price_lines ?asd (books ord) ?st0 = Inr st1" and
    rt: "running_total now h c ord = Inr (apply_discounts ?vd st1)" by blast
  let ?st2 = "apply_discounts ?vd st1"
  from assms(3) dc have r: "r \<in> set ds" by auto
  from assms(4) have nasd: "r \<notin> set ?asd" and nvd: "r \<notin> set ?vd" by simp_all
  from price_lines_frame [OF pl] nasd have h1: "heap st1 r = h r"
    and id1: "\<forall>x. id_no (heap st1 x) = id_no (h x)" by simp_all
  from nvd h1 have h2: "heap ?st2 r = h r"
    by (simp add: apply_discounts_heap_other)
  have k2: "r \<in> set (held ?st2)"
    if u: "\<forall>r'. Some r' \<in> set (discounts c) \<and> id_no (h r') = id_no (h r) \<longrightarrow> r' = r"
  proof -
    have ids: "id_no (h d) \<noteq> id_no (h r)" if "d \<in> set ds" and "valid (h d) now" for d
    proof
      assume "id_no (h d) = id_no (h r)"
      with that(1) dc u have "d = r" by auto
      with that(2) assms(4) show False by simp
    qed
    have a: "r \<in> set (held ?st0)" using r by simp
    have b: "\<forall>d\<in>set ?asd. id_no (heap ?st0 d) \<noteq> id_no (heap ?st0 r)"
      using ids by simp
    from price_lines_held_keep [OF pl a b] have k1: "r \<in> set (held st1)" .
    have "\<forall>d\<in>set ?vd. id_no (heap st1 d) \<noteq> id_no (heap st1 r)"
      using ids id1 by simp
    with k1 show ?thesis by (rule apply_discounts_held_keep)
  qed
  then have k3: "(\<forall>r'. Some r' \<in> set (discounts c) \<and> id_no (h r') = id_no (h r) \<longrightarrow> r' = r)
      \<longrightarrow> Some r \<in> set (discounts (c\<lparr>discounts := map Some (held ?st2)\<rparr>))"
    by simp
  from calculate_Inr [OF rt, of cd] h2 k3 show ?thesis by blast
qed

theorem invalid_general_untouched_witness:
  "None \<notin> set (discounts (john_doe\<lparr>discounts := [Some 0, Some 1]\<rparr>)) \<and>
   None \<notin> fst ` set (books \<lparr>books = [(Some dune, 1)]\<rparr>) \<and>
   Some 1 \<in> set (discounts (john_doe\<lparr>discounts := [Some 0, Some 1]\<rparr>)) \<and>
   \<not> valid (objects 1) 50 \<and> \<not> truthy (author_specific (objects 1)) \<and>
   id_no (objects 0) \<noteq> id_no (objects 1) \<and>
   (\<exists>t h' c'. calculate_total_price nowhere 50 objects
        (john_doe\<lparr>discounts := [Some 0, Some 1]\<rparr>) \<lparr>books = [(Some dune, 1)]\<rparr>
          = Inr (t, h', c') \<and>
      h' 1 = objects 1 \<and> Some 1 \<in> set (discounts c'))"
proof -
  let ?c = "john_doe\<lparr>discounts := [Some 0, Some 1]\<rparr>"
  let ?o = "\<lparr>books = [(Some dune, 1)]\<rparr>"
  have 1: "None \<notin> set (discounts ?c)" by simp
  have 2: "None \<notin> fst ` set (books ?o)" by simp
  have 3: "Some 1 \<in> set (discounts ?c)" by simp
  have 4: "\<not> valid (objects 1) 50" by (simp add: valid_def objects_def seasonal_def)
  have 5: "\<not> truthy (author_specific (objects 1))"
    by (simp add: truthy_def objects_def seasonal_def)
  have 6: "id_no (objects 0) \<noteq> id_no (objects 1)"
    by (simp add: objects_def tenure_def seasonal_def)
  then have 7: "\<forall>r'. Some r' \<in> set (discounts ?c) \<and> id_no (objects r') = id_no (objects 1)
             \<longrightarrow> r' = 1"
    by auto
  from invalid_general_untouched [where c = "?c" and ord = "?o" and r = 1 and h = objects
      and now = 50 and cd = nowhere, OF 1 2 3 4 5] 7
  have "\<exists>t h' c'. calculate_total_price nowhere 50 objects ?c ?o = Inr (t, h', c') \<and>
      h' 1 = objects 1 \<and> Some 1 \<in> set (discounts c')"
    by blast
  with 1 2 3 4 5 6 show ?thesis by blast
qed

text \<open>
  C10. The claim has the counter of every valid general discount go down by one. The
  discount of id 2, valid at time 5 with three uses left, is held twice by the customer;
  on an order with no lines its counter goes down by two.
\<close>

theorem valid_general_consumed_counterexample:
  "nb_usage (objects 1) = 3 \<and> valid (objects 1) 5 \<and> \<not> truthy (author_specific (objects 1)) \<and>
   calculate_total_price nowhere 5 objects (john_doe\<lparr>discounts := [Some 1, Some 1]\<rparr>)
      \<lparr>books = []\<rparr>
   = Inr (0, objects(1 := seasonal\<lparr>nb_usage := 1\<rparr>), john_doe\<lparr>discounts := [Some 1, Some 1]\<rparr>)"
  by (simp add: pricing_defs sample_defs)

text \<open>
  C10, as the code has it: whatever the lines of the order are, the counter of a valid
  general discount goes down by one for each time the discount occurs in the customer's
  list, provided it has at least that many uses left. When the counter has reached 0 the
  discount is gone from the list afterwards. For an order whose lines add up to zero the
  returned price is the rounded shipping cost alone.
\<close>

theorem valid_general_consumed:
  assumes "None \<notin> set (discounts c)" and "None \<notin> fst ` set (books ord)"
    and "Some r \<in> set (discounts c)"
    and "valid (h r) now" and "\<not> truthy (author_specific (h r))"
    and "int (count_list (discounts c) (Some r)) \<le> nb_usage (h r)"
  shows "\<exists>t h' c'. calculate_total_price cd now h c ord = Inr (t, h', c') \<and>
           nb_usage (h' r) = nb_usage (h r) - int (count_list (discounts c) (Some r)) \<and>
           (nb_usage (h' r) = 0 \<longrightarrow> Some r \<notin> set (discounts c')) \<and>
           (lines_total now h c ord = Inr 0 \<longrightarrow>
              t = py_round2 (shipping_cost cd ''paris'' (location c)))"
proof -
  from deref_total [OF assms(1)] obtain ds where ds: "deref (discounts c) = Inr ds" ..
  then have dc: "discounts c = map Some ds" by (rule deref_InrD)
  let ?asd = "filter (\<lambda>d. valid (h d) now \<and> truthy (author_specific (h d))) ds"
  let ?vd = "filter (\<lambda>d. valid (h d) now \<and> \<not> truthy (author_specific (h d))) ds"
  let ?st0 = "\<lparr>total_price = 0, heap = h, held = ds\<rparr>"
  let ?n = "int (count_list (discounts c) (Some r))"
  from running_total_Inr [OF ds assms(2), of h now] obtain st1 where
    pl: "price_lines ?asd (books ord) ?st0 = Inr st1" and
    rt: "running_total now h c ord = Inr (apply_discounts ?vd st1)" by blast
  let ?st2 = "apply_discounts ?vd st1"
  from assms(5) have nasd: "r \<notin> set ?asd" by simp
  from price_lines_frame [OF pl] nasd have h1: "heap st1 r = h r" by simp
  from assms(4,5) have cnt: "count_list ?vd r = count_list (discounts c) (Some r)"
    by (simp add: count_list_filter dc count_list_map_Some)
  from count_list_pos [OF assms(3)] have pos: "1 \<le> ?n" by simp
  have u: "nb_usage (heap ?st2 r) = nb_usage (h r) - ?n"
    by (simp add: apply_discounts_usage h1 cnt)
  have rm: "r \<notin> set (held ?st2)" if "nb_usage (heap ?st2 r) = 0"
  proof -
    from that u have e: "nb_usage (h r) = ?n" by simp
    with pos have 1: "1 \<le> nb_usage (heap st1 r)" by (simp add: h1)
    from e have 2: "nb_usage (heap st1 r) \<le> int (count_list ?vd r)" by (simp add: h1 cnt)
    from 1 2 show ?thesis by (rule apply_discounts_removed)
  qed
  have z: "total_price ?st2 = 0" if "lines_total now h c ord = Inr 0"
  proof -
    from that lines_total_Inr [OF ds pl] have "total_price st1 = 0" by simp
    then show ?thesis by (rule apply_discounts_zero)
  qed
  have 3: "lines_total now h c ord = Inr 0 \<longrightarrow>
     py_round2 (total_price ?st2 +
            (if total_price ?st2 > 50 then 0 else shipping_cost cd ''paris'' (location c)))
       = py_round2 (shipping_cost cd ''paris'' (location c))"
    using z by simp
  have 2: "nb_usage (heap ?st2 r) = 0
              \<longrightarrow> Some r \<notin> set (discounts (c\<lparr>discounts := map Some (held ?st2)\<rparr>))"
    using rm by auto
  from calculate_Inr [OF rt, of cd] u 2 3 show ?thesis by blast
qed

theorem valid_general_consumed_witness:
  "None \<notin> set (discounts (john_doe\<lparr>discounts := [Some 0]\<rparr>)) \<and>
   None \<notin> fst ` set (books \<lparr>books = [(Some dune, 0)]\<rparr>) \<and>
   Some 0 \<in> set (discounts (john_doe\<lparr>discounts := [Some 0]\<rparr>)) \<and>
   valid (objects 0) 50 \<and> \<not> truthy (author_specific (objects 0)) \<and>
   nb_usage (objects 0) = 1 \<and>
   int (count_list (discounts (john_doe\<lparr>discounts := [Some 0]\<rparr>)) (Some 0)) = 1 \<and>
   lines_total 50 objects (john_doe\<lparr>discounts := [Some 0]\<rparr>) \<lparr>books = [(Some dune, 0)]\<rparr>
     = Inr 0 \<and>
   (\<exists>t h' c'. calculate_total_price hundred_km 50 objects
        (john_doe\<lparr>discounts := [Some 0]\<rparr>) \<lparr>books = [(Some dune, 0)]\<rparr> = Inr (t, h', c') \<and>
      nb_usage (h' 0) = 0 \<and> Some 0 \<notin> set (discounts c') \<and> t = 2)"
proof -
  let ?c = "john_doe\<lparr>discounts := [Some 0]\<rparr>"
  let ?o = "\<lparr>books = [(Some dune, 0)]\<rparr>"
  have 1: "None \<notin> set (discounts ?c)" by simp
  have 2: "None \<notin> fst ` set (books ?o)" by simp
  have 3: "Some 0 \<in> set (discounts ?c)" by simp
  have 4: "valid (objects 0) 50" by (simp add: valid_def objects_def tenure_def)
  have 5: "\<not> truthy (author_specific (objects 0))"
    by (simp add: truthy_def objects_def tenure_def)
  have 6: "nb_usage (objects 0) = 1" by (simp add: objects_def tenure_def)
  have 7: "int (count_list (discounts ?c) (Some 0)) = 1" by simp
  have 8: "py_round2 (shipping_cost hundred_km ''paris'' (location ?c)) = 2"
    by (simp add: pricing_defs sample_defs)
  have 9: "lines_total 50 objects ?c ?o = Inr 0"
    by (simp add: lines_total_def pricing_defs sample_defs)
  have b0: "int (count_list (discounts ?c) (Some 0)) \<le> nb_usage (objects 0)"
    by (simp only: 6 7)
  from valid_general_consumed [where c = "?c" and ord = "?o" and r = 0 and h = objects
      and now = 50 and cd = hundred_km, OF 1 2 3 4 5 b0]
  obtain t h' c' where
    a: "calculate_total_price hundred_km 50 objects ?c ?o = Inr (t, h', c')" and
    b: "nb_usage (h' 0) = nb_usage (objects 0) - int (count_list (discounts ?c) (Some 0))" and
    c: "nb_usage (h' 0) = 0 \<longrightarrow> Some 0 \<notin> set (discounts c')" and
    d: "lines_total 50 objects ?c ?o = Inr 0 \<longrightarrow>
          t = py_round2 (shipping_cost hundred_km ''paris'' (location ?c))"
    by blast
  from b have b': "nb_usage (h' 0) = 0" by (simp only: 6 7)
  from c b' have c': "Some 0 \<notin> set (discounts c')" by blast
  from d 8 9 have d': "t = 2" by simp
  from a b' c' d' 1 2 3 4 5 6 7 9 show ?thesis by blast
qed

section \<open>Two calculations in succession\<close>








end
